theory Spec2Isabelle
  imports Main "HOL-Library.Word"
begin

section \<open>Shared types\<close>

text \<open>
  Go's \<open>int64\<close> is a 64-bit word read as two's complement (\<open>sint\<close>); \<open>+\<close> wraps.
  A Go \<open>error\<close> is modelled by the text its \<open>Error()\<close> method returns, which is all
  that the code of this repository ever looks at (\<open>%v\<close>); a nil error is \<open>None\<close>.
\<close>

type_synonym int64 = "64 word"

datatype error = Err string

fun msg :: "error \<Rightarrow> string" where
  "msg (Err m) = m"

text \<open>\<open>errors.New\<close>.\<close>

definition errors_New :: "string \<Rightarrow> error" where
  "errors_New m = Err m"

section \<open>helpers: the configuration file\<close>

text \<open>The \<open>Config\<close> struct of \<open>helpers.go\<close>, field by field.\<close>

record Config =
  AccessKey :: string
  SecretKey :: string
  AccessToken :: string
  HostBucket :: string
  HostBase :: string
  MultipartChunkSizeMb :: int64
  GuessMimeType :: bool
  Encoding :: string
  CheckSslCertificate :: bool
  CheckSslHostname :: bool
  UseHTTPS :: bool
  SocketTimeout :: int64
  HumanReadableSizes :: bool
  PublicKey :: string

text \<open>\<open>&Config{}\<close>: every field at its zero value.\<close>

definition zero_Config :: Config where
  "zero_Config =
     \<lparr> AccessKey = [], SecretKey = [], AccessToken = [], HostBucket = [], HostBase = [],
       MultipartChunkSizeMb = 0, GuessMimeType = False, Encoding = [],
       CheckSslCertificate = False, CheckSslHostname = False, UseHTTPS = False,
       SocketTimeout = 0, HumanReadableSizes = False, PublicKey = [] \<rparr>"

text \<open>
  What \<open>ini.Load\<close> hands back: the sections of the file in order, after the section
  named \<open>DEFAULT\<close> that the library always puts first (so \<open>SectionStrings\<close> is never
  empty). The library itself (\<open>gopkg.in/ini.v1\<close>) is not part of the repository:
  \<open>ini.Load\<close> and \<open>MapTo\<close> are parameters of \<open>LoadConfigFile\<close> below.
\<close>

record ini_Section =
  sec_name :: string
  sec_keys :: "(string \<times> string) list"

record ini_File =
  default_section :: ini_Section
  other_sections :: "ini_Section list"

definition all_sections :: "ini_File \<Rightarrow> ini_Section list" where
  "all_sections cfg = default_section cfg # other_sections cfg"

definition SectionStrings :: "ini_File \<Rightarrow> string list" where
  "SectionStrings cfg = map sec_name (all_sections cfg)"

text \<open>\<open>cfg.Section(name)\<close>: the section of that name, an empty one when there is none.\<close>

definition Section :: "ini_File \<Rightarrow> string \<Rightarrow> ini_Section" where
  "Section cfg nm =
     (case find (\<lambda>s. sec_name s = nm) (all_sections cfg) of
        Some s \<Rightarrow> s
      | None \<Rightarrow> \<lparr> sec_name = nm, sec_keys = [] \<rparr>)"

text \<open>
  \<open>LoadConfigFile\<close> returns a pair \<open>(*Config, error)\<close>; a nil pointer and a nil error
  are \<open>None\<close>. The three returns with an error and the final return are the four
  exits of the source, in its order.
\<close>

definition LoadConfigFile ::
  "(string \<Rightarrow> error + ini_File) \<Rightarrow> (ini_Section \<Rightarrow> Config \<Rightarrow> error + Config) \<Rightarrow>
     string \<Rightarrow> Config option \<times> error option" where
  "LoadConfigFile ini_Load MapTo path =
     (let config = zero_Config in
      case ini_Load path of
        Inl err \<Rightarrow> (Some config, Some err)
      | Inr cfg \<Rightarrow>
         (let iniSection =
                (if length (SectionStrings cfg) > 1 then SectionStrings cfg ! 1
                 else SectionStrings cfg ! 0)
          in case MapTo (Section cfg iniSection) config of
               Inl err \<Rightarrow> (None, Some err)
             | Inr config \<Rightarrow>
                 if AccessKey config = [] \<or> AccessToken config = [] then
                   (None, Some (errors_New ''failed to find credentials in configuration file''))
                 else if HostBase config = [] then
                   (None, Some (errors_New ''failed to find endpoint in configuration file''))
                 else
                   (let config = (if UseHTTPS config
                                  then config\<lparr>HostBase := ''https://'' @ HostBase config\<rparr>
                                  else config);
                        config = (if Encoding config = []
                                  then config\<lparr>Encoding := ''UTF-8''\<rparr>
                                  else config);
                        config = (if sint (MultipartChunkSizeMb config) \<le> 15
                                  then config\<lparr>MultipartChunkSizeMb := 15\<rparr>
                                  else config)
                    in (Some config, None))))"

text \<open>
  The section \<open>LoadConfigFile\<close> maps: the first one after \<open>DEFAULT\<close> when the file
  has one, \<open>DEFAULT\<close> otherwise.
\<close>

definition chosen_section :: "ini_File \<Rightarrow> ini_Section" where
  "chosen_section cfg =
     Section cfg (if length (SectionStrings cfg) > 1 then SectionStrings cfg ! 1
                  else SectionStrings cfg ! 0)"

text \<open>\<open>strings.HasPrefix\<close>.\<close>

definition HasPrefix :: "string \<Rightarrow> string \<Rightarrow> bool" where
  "HasPrefix s p = (take (length p) s = p)"

text \<open>
  Stand-ins for the two library calls, to run \<open>LoadConfigFile\<close> on concrete files:
  \<open>example_ini_Load secs\<close> is a file system whose every path holds the sections
  \<open>secs\<close>, and \<open>example_MapTo\<close> copies the keys that \<open>LoadConfigFile\<close> inspects
  (a missing key leaves the zero value, as the library does).
\<close>

definition key_value :: "ini_Section \<Rightarrow> string \<Rightarrow> string" where
  "key_value s k = (case map_of (sec_keys s) k of Some v \<Rightarrow> v | None \<Rightarrow> [])"

definition decimal :: "string \<Rightarrow> int64" where
  "decimal s = foldl (\<lambda>acc ch. acc * 10 + word_of_nat (of_char ch - 48)) 0 s"

definition example_MapTo :: "ini_Section \<Rightarrow> Config \<Rightarrow> error + Config" where
  "example_MapTo s c =
     Inr (c\<lparr> AccessKey := key_value s ''access_key'',
             SecretKey := key_value s ''secret_key'',
             AccessToken := key_value s ''access_token'',
             HostBase := key_value s ''host_base'',
             MultipartChunkSizeMb := decimal (key_value s ''multipart_chunk_size_mb''),
             UseHTTPS := (key_value s ''use_https'' = ''True'') \<rparr>)"

definition example_ini_Load :: "ini_Section list \<Rightarrow> string \<Rightarrow> error + ini_File" where
  "example_ini_Load secs path =
     Inr \<lparr> default_section = \<lparr> sec_name = ''DEFAULT'', sec_keys = [] \<rparr>,
           other_sections = secs \<rparr>"

text \<open>
  Two configuration files: a session file whose \<open>host_base\<close> already carries the
  scheme and that does not set \<open>use_https\<close>, and an s3cmd file that sets it.
\<close>

definition session_file :: "ini_Section list" where
  "session_file =
     [\<lparr> sec_name = ''default'',
        sec_keys = [(''access_key'', ''user''), (''access_token'', ''tok''),
                    (''host_base'', ''https://inbox.example.org''),
                    (''multipart_chunk_size_mb'', ''5'')] \<rparr>]"

definition s3cmd_file :: "ini_Section list" where
  "s3cmd_file =
     [\<lparr> sec_name = ''default'',
        sec_keys = [(''access_key'', ''user''), (''access_token'', ''tok''),
                    (''host_base'', ''inbox.example.org''), (''use_https'', ''True''),
                    (''multipart_chunk_size_mb'', ''50'')] \<rparr>]"

text \<open>What \<open>LoadConfigFile\<close> returns for the two files (shown below).\<close>

definition session_Config :: Config where
  "session_Config =
     zero_Config\<lparr> AccessKey := ''user'', AccessToken := ''tok'',
                  HostBase := ''https://inbox.example.org'',
                  MultipartChunkSizeMb := 15, Encoding := ''UTF-8'' \<rparr>"

definition s3cmd_Config :: Config where
  "s3cmd_Config =
     zero_Config\<lparr> AccessKey := ''user'', AccessToken := ''tok'',
                  HostBase := ''https://inbox.example.org'',
                  MultipartChunkSizeMb := 50, Encoding := ''UTF-8'', UseHTTPS := True \<rparr>"

section \<open>helpers: the progress-bar reader\<close>

text \<open>
  \<open>mpb.Bar\<close> belongs to a library; the two calls made on it here store a total and a
  current value.
\<close>

record mpb_Bar =
  bar_total :: int64
  bar_complete :: bool
  bar_current :: int64

definition SetTotal :: "mpb_Bar \<Rightarrow> int64 \<Rightarrow> bool \<Rightarrow> mpb_Bar" where
  "SetTotal b t complete = b\<lparr>bar_total := t, bar_complete := complete\<rparr>"

definition SetCurrent :: "mpb_Bar \<Rightarrow> int64 \<Rightarrow> mpb_Bar" where
  "SetCurrent b c = b\<lparr>bar_current := c\<rparr>"

text \<open>
  The \<open>CustomReader\<close> struct. \<open>SignMap\<close> is a \<open>map[int64]struct{}\<close>, that is a set of
  offsets. The file \<open>Fp\<close> is left out of the record: what \<open>r.Fp.ReadAt(p, off)\<close>
  returns, the number \<open>n\<close> of bytes read (\<open>0 \<le> n \<le> len(p)\<close>) and the error, is an
  argument of \<open>ReadAt\<close>. The body between \<open>Mux.Lock()\<close> and \<open>Mux.Unlock()\<close> runs
  atomically, so a list of calls stands for any interleaving of concurrent callers.
\<close>

record CustomReader =
  Size :: int64
  Reads :: int64
  Bar :: mpb_Bar
  SignMap :: "int64 set"

definition ReadAt ::
  "CustomReader \<Rightarrow> nat \<times> error option \<Rightarrow> int64 \<Rightarrow> (nat \<times> error option) \<times> CustomReader" where
  "ReadAt r fp_ReadAt off =
     (let (n, err) = fp_ReadAt in
      if err \<noteq> None then ((n, err), r)
      else
        (let r = r\<lparr>Bar := SetTotal (Bar r) (Size r) False\<rparr>;
             r = (if off \<in> SignMap r then
                    (let r = r\<lparr>Reads := Reads r + word_of_nat n\<rparr>
                     in r\<lparr>Bar := SetCurrent (Bar r) (Reads r)\<rparr>)
                  else r\<lparr>SignMap := insert off (SignMap r)\<rparr>)
         in ((n, err), r)))"

text \<open>
  A call is its offset and what the file returned for it; a list of calls is run in
  order on the one reader.
\<close>

type_synonym read_call = "int64 \<times> nat \<times> error option"

fun ReadAt_calls :: "read_call list \<Rightarrow> CustomReader \<Rightarrow> CustomReader" where
  "ReadAt_calls [] r = r"
| "ReadAt_calls ((off, res) # cs) r = ReadAt_calls cs (snd (ReadAt r res off))"


text \<open>
  The bytes that a list of calls adds to \<open>Reads\<close>, for the set \<open>seen\<close> of offsets
  recorded before it: those of the successful calls at an offset recorded by then.
\<close>

fun counted_bytes :: "int64 set \<Rightarrow> read_call list \<Rightarrow> nat" where
  "counted_bytes seen [] = 0"
| "counted_bytes seen ((off, n, err) # cs) =
     (if err \<noteq> None then counted_bytes seen cs
      else (if off \<in> seen then n else 0) + counted_bytes (insert off seen) cs)"

text \<open>A reader of a file of the given size with nothing read and nothing recorded yet.\<close>

definition new_CustomReader :: "int64 \<Rightarrow> CustomReader" where
  "new_CustomReader sz =
     \<lparr> Size = sz, Reads = 0,
       Bar = \<lparr> bar_total = 0, bar_complete = False, bar_current = 0 \<rparr>,
       SignMap = {} \<rparr>"

text \<open>
  A reader whose counter stands three below the largest \<open>int64\<close> and that has already
  recorded offset 0.
\<close>

definition nearly_full_CustomReader :: CustomReader where
  "nearly_full_CustomReader =
     \<lparr> Size = 9223372036854775807, Reads = 9223372036854775805,
       Bar = \<lparr> bar_total = 0, bar_complete = False, bar_current = 0 \<rparr>,
       SignMap = {0} \<rparr>"

section \<open>helpers: listing files\<close>

text \<open>
  The values \<open>ListFiles\<close> builds for the AWS SDK: the session configuration and the
  input of \<open>ListObjectsV2\<close>. The SDK is not part of the repository: creating the session
  and the call to the service are parameters. \<open>session.Must\<close> panics when the session
  cannot be created.
\<close>

record StaticCredentials =
  cred_id :: string
  cred_secret :: string
  cred_token :: string

record aws_Config =
  Region :: string
  Credentials :: StaticCredentials
  Endpoint :: string
  DisableSSL :: bool
  S3ForcePathStyle :: bool

record ListObjectsV2Input =
  Bucket :: string
  Prefix :: string

datatype 'a go_result = Panic error | Return 'a

definition ListFiles ::
  "(aws_Config \<Rightarrow> error + 'sess) \<Rightarrow> ('sess \<Rightarrow> ListObjectsV2Input \<Rightarrow> error + 'out) \<Rightarrow>
     Config \<Rightarrow> string \<Rightarrow> ('out option \<times> error option) go_result" where
  "ListFiles NewSession ListObjectsV2 config prefix =
     (case NewSession
             \<lparr> Region = ''us-west-2'',
               Credentials = \<lparr> cred_id = AccessKey config, cred_secret = AccessKey config,
                               cred_token = AccessToken config \<rparr>,
               Endpoint = HostBase config,
               DisableSSL = (\<not> UseHTTPS config),
               S3ForcePathStyle = True \<rparr> of
        Inl e \<Rightarrow> Panic e
      | Inr svc \<Rightarrow>
          (case ListObjectsV2 svc
                  \<lparr> Bucket = AccessKey config @ ''/'',
                    Prefix = AccessKey config @ ''/'' @ prefix \<rparr> of
             Inl err \<Rightarrow> Return (None, Some (Err (''failed to list objects, reason: '' @ msg err)))
           | Inr result \<Rightarrow> Return (Some result, None)))"

text \<open>
  Path-style addressing: the bucket is the first segment of the path of the request,
  and an object is addressed by the path made of \<open>/\<close>, its bucket, \<open>/\<close> and its key.
  The SDK sends \<open>ListObjectsV2\<close> to the path made of \<open>/\<close> and the \<open>Bucket\<close> field of
  its input.
\<close>

definition path_style_path :: "string \<Rightarrow> string \<Rightarrow> string" where
  "path_style_path bucket key = ''/'' @ bucket @ ''/'' @ key"

definition request_path :: "ListObjectsV2Input \<Rightarrow> string" where
  "request_path inp = ''/'' @ Bucket inp"

text \<open>
  A service that answers every request with the session configuration and the input it
  was sent, to read off what \<open>ListFiles\<close> asks for.
\<close>

definition record_request ::
  "aws_Config \<Rightarrow> ListObjectsV2Input \<Rightarrow> error + aws_Config \<times> ListObjectsV2Input" where
  "record_request svc inp = Inr (svc, inp)"

section \<open>main: dispatch and the final report\<close>

text \<open>
  \<open>ParseArgs\<close> either returns the command and the remaining arguments, or calls
  \<open>Help\<close>, which prints usage text and ends the process with \<open>os.Exit(1)\<close>.
  \<open>Called_Help c\<close> records the argument \<open>Help\<close> was called with.
\<close>

datatype 'a parsed = Called_Help string | Returned 'a

definition ParseArgs :: "string list \<Rightarrow> (string \<times> string list) parsed" where
  "ParseArgs os_Args =
     (if length os_Args < 2 then Called_Help ''help''
      else if os_Args ! 1 = ''version'' \<or> os_Args ! 1 = ''-v'' \<or> os_Args ! 1 = ''--version'' then
        (if length os_Args \<noteq> 2 then Called_Help ''version''
         else Returned (''version'', os_Args))
      else
        (let command = os_Args ! 1;
             os_Args = take 1 os_Args @ drop 2 os_Args
         in if command = ''-h'' \<or> command = ''help'' \<or> command = ''-help'' \<or> command = ''--help''
            then Called_Help (if length os_Args > 1 then os_Args ! 1 else ''help'')
            else if command = ''list'' then Returned (command, os_Args)
            else if length os_Args = 1 then Called_Help command
            else Returned (command, os_Args)))"

text \<open>
  The sub-commands live in packages of their own; \<open>main\<close> only sees the \<open>error\<close> each
  returns. \<open>error\<close> is a Go interface: \<open>main\<close> reads the value only through its
  \<open>Error()\<close> text (\<open>%v\<close>), so the model is polymorphic in the type \<open>'e\<close> of error
  values and takes \<open>Error\<close> as a function.
\<close>

record 'e Subcommands =
  Encrypt :: "string list \<Rightarrow> 'e option"
  CreateKey :: "string list \<Rightarrow> 'e option"
  Decrypt :: "string list \<Rightarrow> 'e option"
  Download :: "string list \<Rightarrow> 'e option"
  Upload :: "string list \<Rightarrow> 'e option"
  DatasetSize :: "string list \<Rightarrow> 'e option"
  List :: "string list \<Rightarrow> 'e option"
  NewLogin :: "string list \<Rightarrow> 'e option"
  Version :: "string \<Rightarrow> 'e option"

text \<open>
  What \<open>main\<close> itself leaves behind: the text it writes to standard error and the exit
  status of the process. \<open>main\<close> returns normally on every path that ran a
  sub-command, which is exit status 0; only \<open>Help\<close> exits with 1. The usage text that
  \<open>Help\<close> prints comes from the other packages and is the parameter \<open>Help_text\<close>.
\<close>

record report =
  stderr :: string
  exit_status :: nat

definition main_Version :: string where
  "main_Version = ''development''"

definition main ::
  "('e \<Rightarrow> string) \<Rightarrow> (string \<Rightarrow> string) \<Rightarrow> 'e Subcommands \<Rightarrow> string list \<Rightarrow> report" where
  "main Error Help_text sub os_Args =
     (case ParseArgs os_Args of
        Called_Help c \<Rightarrow> \<lparr> stderr = Help_text c, exit_status = 1 \<rparr>
      | Returned (command, args) \<Rightarrow>
          (let (err, out) =
                 (if command = ''encrypt'' then (Encrypt sub args, [])
                  else if command = ''createkey'' \<or> command = ''createKey'' \<or> command = ''create-key''
                    then (CreateKey sub args, [])
                  else if command = ''decrypt'' then (Decrypt sub args, [])
                  else if command = ''download'' then (Download sub args, [])
                  else if command = ''upload'' then (Upload sub args, [])
                  else if command = ''datasetsize'' then (DatasetSize sub args, [])
                  else if command = ''list'' then (List sub args, [])
                  else if command = ''login'' then (NewLogin sub args, [])
                  else if command = ''version'' then (Version sub main_Version, [])
                  else (None, ''Unknown command: '' @ command))
           in \<lparr> stderr = out @ (case err of None \<Rightarrow> []
                                   | Some e \<Rightarrow> ''Error: '' @ Error e @ [CHR 0x0A]),
                exit_status = 0 \<rparr>))"

text \<open>
  Error values that carry, besides their text, whether the failure could be retried
  later or is permanent; \<open>failure_text\<close> is their \<open>Error()\<close> method. Sub-commands that
  all return the same result, a \<open>Help\<close> that prints nothing, and an upload command line.
\<close>

datatype transfer_failure = Resumable string | Permanent string

fun failure_text :: "transfer_failure \<Rightarrow> string" where
  "failure_text (Resumable m) = m"
| "failure_text (Permanent m) = m"

definition all_returning :: "'e option \<Rightarrow> 'e Subcommands" where
  "all_returning res =
     \<lparr> Encrypt = (\<lambda>args. res), CreateKey = (\<lambda>args. res), Decrypt = (\<lambda>args. res),
       Download = (\<lambda>args. res), Upload = (\<lambda>args. res), DatasetSize = (\<lambda>args. res),
       List = (\<lambda>args. res), NewLogin = (\<lambda>args. res), Version = (\<lambda>v. res) \<rparr>"

definition no_Help_text :: "string \<Rightarrow> string" where
  "no_Help_text c = []"

definition upload_Args :: "string list" where
  "upload_Args = [''sda-cli'', ''upload'', ''-config'', ''s3cmd.conf'', ''data.c4gh'']"



section \<open>ChunkCodec\<close>

text \<open>
  \<open>main\<close> calls the packages \<open>encrypt\<close>, \<open>decrypt\<close>, \<open>upload\<close> and \<open>download\<close>, whose
  code is not among the source files; the codec and the part planner are therefore
  modelled from the specification's description of them (sections 3, 4.1 and 4.2).
\<close>

type_synonym byte = "8 word"

text \<open>
  Modelled from the spec: the cryptographic primitives of the container format, which
  the specification fixes and leaves out of scope. A window of plaintext is encrypted
  and decrypted under the file's data key at a sequence index, a tag authenticates a
  ciphertext under that key at that index, and the data key is sealed for a recipient's
  public key and unsealed with a private key. \<open>'s\<close> is the form of a sealed entry.
\<close>

record 's primitives =
  encrypt_window :: "byte list \<Rightarrow> nat \<Rightarrow> byte list \<Rightarrow> byte list"
  decrypt_window :: "byte list \<Rightarrow> nat \<Rightarrow> byte list \<Rightarrow> byte list"
  auth_tag :: "byte list \<Rightarrow> nat \<Rightarrow> byte list \<Rightarrow> byte list"
  public_key :: "byte list \<Rightarrow> byte list"
  seal_key :: "byte list \<Rightarrow> byte list \<Rightarrow> 's"
  unseal_key :: "byte list \<Rightarrow> 's \<Rightarrow> byte list option"

text \<open>
  Modelled from the spec: what the primitives are taken to guarantee. Decryption undoes
  encryption under the same key and index, and a private key unseals exactly the
  entries sealed for its own public key.
\<close>

definition sound_primitives :: "'s primitives \<Rightarrow> bool" where
  "sound_primitives P \<longleftrightarrow>
     (\<forall>k i w. decrypt_window P k i (encrypt_window P k i w) = w) \<and>
     (\<forall>priv pub k. unseal_key P priv (seal_key P pub k) =
                      (if pub = public_key P priv then Some k else None))"

text \<open>
  Modelled from the spec: the \<open>CipherBlock\<close> of the data model (sequence index,
  plaintext length, ciphertext bytes, authentication tag), and the encoded stream: the
  header with one sealed entry per recipient, then the blocks.
\<close>

record CipherBlock =
  seq_index :: nat
  plaintext_length :: nat
  ciphertext :: "byte list"
  tag :: "byte list"

record 's container =
  header :: "'s list"
  blocks :: "CipherBlock list"

text \<open>Modelled from the spec: the two errors of the decoder (the codec itself is missing).\<close>

datatype codec_error = KeyUnsealError | IntegrityError

text \<open>
  Modelled from the spec: the encoder reads the plaintext in windows of the fixed block
  size; the final window may be shorter, and an empty plaintext has no window.
\<close>

function windows :: "nat \<Rightarrow> 'a list \<Rightarrow> 'a list list" where
  "windows B xs = (if B = 0 \<or> xs = [] then [] else take B xs # windows B (drop B xs))"
  by pat_completeness auto
termination
  by (relation "measure (\<lambda>(B, xs). length xs)") auto

declare windows.simps [simp del]

text \<open>
  Modelled from the spec: the encoder encrypts each window under the data key, appends
  its authentication tag and emits the block with its sequence index.
\<close>

definition encode_block :: "'s primitives \<Rightarrow> byte list \<Rightarrow> nat \<Rightarrow> byte list \<Rightarrow> CipherBlock" where
  "encode_block P key i w =
     \<lparr> seq_index = i, plaintext_length = length w,
       ciphertext = encrypt_window P key i w,
       tag = auth_tag P key i (encrypt_window P key i w) \<rparr>"

text \<open>Modelled from the spec: the blocks of a list of windows, numbered upwards from \<open>i\<close>.\<close>

fun encode_from :: "'s primitives \<Rightarrow> byte list \<Rightarrow> nat \<Rightarrow> byte list list \<Rightarrow> CipherBlock list" where
  "encode_from P key i [] = []"
| "encode_from P key i (w # ws) = encode_block P key i w # encode_from P key (Suc i) ws"

text \<open>
  Modelled from the spec: encoding. The data key is sealed once per recipient at the
  start of the stream, whatever the number of blocks; the blocks are numbered from 0.
\<close>

definition encode ::
  "'s primitives \<Rightarrow> nat \<Rightarrow> byte list \<Rightarrow> byte list list \<Rightarrow> byte list \<Rightarrow> 's container" where
  "encode P B key recipients x =
     \<lparr> header = map (\<lambda>pub. seal_key P pub key) recipients,
       blocks = encode_from P key 0 (windows B x) \<rparr>"

text \<open>
  Modelled from the spec: the decoder reads the header first and unseals the data key
  from the first recipient entry that the caller's private key unseals.
\<close>

fun unseal_header :: "'s primitives \<Rightarrow> byte list \<Rightarrow> 's list \<Rightarrow> byte list option" where
  "unseal_header P priv [] = None"
| "unseal_header P priv (e # es) =
     (case unseal_key P priv e of Some key \<Rightarrow> Some key | None \<Rightarrow> unseal_header P priv es)"

text \<open>
  Modelled from the spec: a block is valid at position \<open>i\<close> when it carries the sequence
  index \<open>i\<close> (the indices run from 0 without gaps) and its tag verifies against the data
  key. The blocks are checked in order.
\<close>

definition block_valid :: "'s primitives \<Rightarrow> byte list \<Rightarrow> nat \<Rightarrow> CipherBlock \<Rightarrow> bool" where
  "block_valid P key i b \<longleftrightarrow>
     seq_index b = i \<and> tag b = auth_tag P key i (ciphertext b)"

text \<open>Modelled from the spec: all blocks are valid, the first one at position \<open>i\<close>.\<close>

fun verify_from :: "'s primitives \<Rightarrow> byte list \<Rightarrow> nat \<Rightarrow> CipherBlock list \<Rightarrow> bool" where
  "verify_from P key i [] = True"
| "verify_from P key i (b # bs) = (block_valid P key i b \<and> verify_from P key (Suc i) bs)"

text \<open>
  Modelled from the spec: the plaintext of a block is its decrypted ciphertext, cut to
  the plaintext length the block records, so that a short final block needs no padding
  rule.
\<close>

definition block_plaintext :: "'s primitives \<Rightarrow> byte list \<Rightarrow> nat \<Rightarrow> CipherBlock \<Rightarrow> byte list" where
  "block_plaintext P key i b = take (plaintext_length b) (decrypt_window P key i (ciphertext b))"

text \<open>Modelled from the spec: the plaintext of the blocks in order, end to end.\<close>

fun decrypt_from :: "'s primitives \<Rightarrow> byte list \<Rightarrow> nat \<Rightarrow> CipherBlock list \<Rightarrow> byte list" where
  "decrypt_from P key i [] = []"
| "decrypt_from P key i (b # bs) = block_plaintext P key i b @ decrypt_from P key (Suc i) bs"

text \<open>
  Modelled from the spec: decoding. \<open>KeyUnsealError\<close> when no recipient entry can be
  unsealed; \<open>IntegrityError\<close> when a block fails verification, which aborts the whole
  job, so that plaintext is handed to the caller only when every block has verified.
\<close>

definition decode :: "'s primitives \<Rightarrow> byte list \<Rightarrow> 's container \<Rightarrow> codec_error + byte list" where
  "decode P priv c =
     (case unseal_header P priv (header c) of
        None \<Rightarrow> Inl KeyUnsealError
      | Some key \<Rightarrow>
          if verify_from P key 0 (blocks c) then Inr (decrypt_from P key 0 (blocks c))
          else Inl IntegrityError)"

text \<open>Modelled from the spec: the plaintext bytes a decoding hands to the caller.\<close>

definition emitted :: "codec_error + byte list \<Rightarrow> byte list" where
  "emitted res = (case res of Inl e \<Rightarrow> [] | Inr x \<Rightarrow> x)"

text \<open>The stream \<open>c\<close> with the tag of block \<open>i\<close> replaced by \<open>t\<close>.\<close>

definition tamper_tag :: "'s container \<Rightarrow> nat \<Rightarrow> byte list \<Rightarrow> 's container" where
  "tamper_tag c i t = c\<lparr>blocks := (blocks c)[i := (blocks c ! i)\<lparr>tag := t\<rparr>]\<rparr>"

text \<open>
  Primitives to run the codec on concrete inputs: a window is encrypted by adding the
  first key byte and the index to each byte, the tag is the sum of the ciphertext bytes,
  the key byte and the index, the public key of a private key is its reverse, and a
  sealed entry is the pair of the recipient's public key and the data key.
\<close>

definition key_byte :: "byte list \<Rightarrow> byte" where
  "key_byte key = (case key of [] \<Rightarrow> 0 | k # ks \<Rightarrow> k)"

definition toy_primitives :: "(byte list \<times> byte list) primitives" where
  "toy_primitives =
     \<lparr> encrypt_window = (\<lambda>key i w. map (\<lambda>b. b + key_byte key + word_of_nat i) w),
       decrypt_window = (\<lambda>key i w. map (\<lambda>b. b - key_byte key - word_of_nat i) w),
       auth_tag = (\<lambda>key i w. [sum_list w + key_byte key + word_of_nat i]),
       public_key = rev,
       seal_key = (\<lambda>pub key. (pub, key)),
       unseal_key = (\<lambda>priv (pub, key). if pub = rev priv then Some key else None) \<rparr>"

section \<open>PartPlanner\<close>

text \<open>Modelled from the spec: the error of the planner (the planner itself is missing).\<close>

datatype plan_error = PlanningError

text \<open>Modelled from the spec: the quotient rounded up, for a positive divisor.\<close>

definition ceil_div :: "nat \<Rightarrow> nat \<Rightarrow> nat" where
  "ceil_div a b = (a + b - 1) div b"

text \<open>Modelled from the spec: a size rounded up to the next multiple of the block size.\<close>

definition round_up :: "nat \<Rightarrow> nat \<Rightarrow> nat" where
  "round_up B n = ceil_div n B * B"

text \<open>
  Modelled from the spec: the byte ranges \<open>(offset, length)\<close> of the parts, in order:
  consecutive ranges of the part size, the last one holding what is left.
\<close>

definition part_ranges :: "nat \<Rightarrow> nat \<Rightarrow> (nat \<times> nat) list" where
  "part_ranges partSize totalBytes =
     map (\<lambda>k. (k * partSize, min partSize (totalBytes - k * partSize)))
       [0 ..< ceil_div totalBytes partSize]"

text \<open>
  Modelled from the spec: \<open>plan(totalCipherBytes, minPartSize, maxPartCount)\<close>, for the
  fixed block size \<open>B\<close> and the service's maximum part size \<open>maxPartSize\<close>. The part
  size is the least size that is at least the configured minimum and needs at most
  \<open>maxPartCount\<close> parts, rounded up to the next multiple of the block size;
  \<open>PlanningError\<close> when no part count is allowed or when that part size exceeds the
  service's maximum. An empty stream has no parts.
\<close>

definition plan ::
  "nat \<Rightarrow> nat \<Rightarrow> nat \<Rightarrow> nat \<Rightarrow> nat \<Rightarrow> plan_error + (nat \<times> nat) list" where
  "plan B maxPartSize totalCipherBytes minPartSize maxPartCount =
     (if totalCipherBytes = 0 then Inr []
      else if maxPartCount = 0 then Inl PlanningError
      else
        (let partSize = round_up B (max minPartSize (ceil_div totalCipherBytes maxPartCount))
         in if partSize > maxPartSize then Inl PlanningError
            else Inr (part_ranges partSize totalCipherBytes)))"

section \<open>Properties of LoadConfigFile\<close>

text \<open>
  Once \<open>ini.Load\<close> has parsed the file and \<open>MapTo\<close> has filled the struct with \<open>c\<close>,
  the result of \<open>LoadConfigFile\<close> is a function of \<open>c\<close> alone.
\<close>

lemma LoadConfigFile_mapped:
  assumes "ini_Load path = Inr cfg" and "MapTo (chosen_section cfg) zero_Config = Inr c"
  shows "LoadConfigFile ini_Load MapTo path =
     (if AccessKey c = [] \<or> AccessToken c = [] then
        (None, Some (errors_New ''failed to find credentials in configuration file''))
      else if HostBase c = [] then
        (None, Some (errors_New ''failed to find endpoint in configuration file''))
      else
        (Some (c\<lparr> HostBase := (if UseHTTPS c then ''https://'' @ HostBase c else HostBase c),
                 Encoding := (if Encoding c = [] then ''UTF-8'' else Encoding c),
                 MultipartChunkSizeMb :=
                   (if sint (MultipartChunkSizeMb c) \<le> 15 then 15 else MultipartChunkSizeMb c) \<rparr>),
         None))"
  using assms by (simp add: LoadConfigFile_def chosen_section_def Let_def)

text \<open>A successful return went through both library calls.\<close>

lemma LoadConfigFile_success:
  assumes "LoadConfigFile ini_Load MapTo path = (Some config, None)"
  obtains cfg c where "ini_Load path = Inr cfg"
    and "MapTo (chosen_section cfg) zero_Config = Inr c"
  using assms
  by (auto simp: LoadConfigFile_def chosen_section_def Let_def split: sum.splits if_splits)

lemma session_file_loaded:
  "LoadConfigFile (example_ini_Load session_file) example_MapTo ''.sda-cli-session'' =
     (Some session_Config, None)"
  by (simp add: LoadConfigFile_def example_ini_Load_def session_file_def example_MapTo_def
      SectionStrings_def all_sections_def Section_def key_value_def decimal_def zero_Config_def
      session_Config_def errors_New_def Let_def)

lemma s3cmd_file_loaded:
  "LoadConfigFile (example_ini_Load s3cmd_file) example_MapTo ''s3cmd.conf'' =
     (Some s3cmd_Config, None)"
  by (simp add: LoadConfigFile_def example_ini_Load_def s3cmd_file_def example_MapTo_def
      SectionStrings_def all_sections_def Section_def key_value_def decimal_def zero_Config_def
      s3cmd_Config_def errors_New_def Let_def)

text \<open>
  Claim C8, as the code has it. For every file that \<open>ini.Load\<close> parses and \<open>MapTo\<close>
  maps to \<open>c\<close>, \<open>LoadConfigFile\<close> returns an error if and only if the access key, the
  access token or the host base of \<open>c\<close> is empty; the secret key plays no part. On
  success the returned endpoint is \<open>https://\<close> followed by the file's host base when
  \<open>use_https\<close> is set, and so starts with \<open>https://\<close>; it is the file's host base,
  unchanged, when \<open>use_https\<close> is not set.
\<close>

theorem LoadConfigFile_error_iff_and_endpoint:
  assumes "ini_Load path = Inr cfg" and "MapTo (chosen_section cfg) zero_Config = Inr c"
  shows "(snd (LoadConfigFile ini_Load MapTo path) \<noteq> None \<longleftrightarrow>
            AccessKey c = [] \<or> AccessToken c = [] \<or> HostBase c = []) \<and>
         (\<forall>config. LoadConfigFile ini_Load MapTo path = (Some config, None) \<longrightarrow>
            HostBase config = (if UseHTTPS c then ''https://'' @ HostBase c else HostBase c) \<and>
            UseHTTPS config = UseHTTPS c \<and>
            (UseHTTPS c \<longrightarrow> HasPrefix (HostBase config) ''https://''))"
  by (auto simp: LoadConfigFile_mapped [where ini_Load = ini_Load and MapTo = MapTo, OF assms]
      HasPrefix_def)

lemma s3cmd_file_parsed:
  "example_ini_Load s3cmd_file ''s3cmd.conf'' =
     Inr \<lparr> default_section = \<lparr> sec_name = ''DEFAULT'', sec_keys = [] \<rparr>,
           other_sections = s3cmd_file \<rparr>"
  by (simp add: example_ini_Load_def)

lemma s3cmd_file_mapped:
  "example_MapTo
     (chosen_section \<lparr> default_section = \<lparr> sec_name = ''DEFAULT'', sec_keys = [] \<rparr>,
                       other_sections = s3cmd_file \<rparr>) zero_Config =
   Inr (zero_Config\<lparr> AccessKey := ''user'', AccessToken := ''tok'',
                      HostBase := ''inbox.example.org'', MultipartChunkSizeMb := 50,
                      UseHTTPS := True \<rparr>)"
  by (simp add: chosen_section_def s3cmd_file_def example_MapTo_def SectionStrings_def
      all_sections_def Section_def key_value_def decimal_def zero_Config_def)

theorem LoadConfigFile_error_iff_and_endpoint_witness:
  "example_ini_Load s3cmd_file ''s3cmd.conf'' =
     Inr \<lparr> default_section = \<lparr> sec_name = ''DEFAULT'', sec_keys = [] \<rparr>,
           other_sections = s3cmd_file \<rparr> \<and>
   snd (LoadConfigFile (example_ini_Load s3cmd_file) example_MapTo ''s3cmd.conf'') = None \<and>
   LoadConfigFile (example_ini_Load s3cmd_file) example_MapTo ''s3cmd.conf'' =
     (Some s3cmd_Config, None) \<and>
   HostBase s3cmd_Config = ''https://inbox.example.org'' \<and>
   HasPrefix (HostBase s3cmd_Config) ''https://''"
  using LoadConfigFile_error_iff_and_endpoint
    [where ini_Load = "example_ini_Load s3cmd_file" and MapTo = example_MapTo,
     OF s3cmd_file_parsed s3cmd_file_mapped]
    s3cmd_file_parsed s3cmd_file_loaded
  by (simp add: zero_Config_def s3cmd_Config_def)

text \<open>
  The claim as first written also says that the returned endpoint starts with
  \<open>https://\<close> only when \<open>use_https\<close> is set. The session file does not set it, its
  host base already starts with \<open>https://\<close>, and \<open>LoadConfigFile\<close> returns that host
  base as it is.
\<close>

theorem LoadConfigFile_https_counterexample:
  "LoadConfigFile (example_ini_Load session_file) example_MapTo ''.sda-cli-session'' =
     (Some session_Config, None) \<and>
   HasPrefix (HostBase session_Config) ''https://'' \<and>
   UseHTTPS session_Config = False \<and>
   key_value (hd session_file) ''use_https'' = []"
  by (simp add: session_file_loaded)
     (simp add: session_Config_def zero_Config_def HasPrefix_def session_file_def key_value_def)

text \<open>
  Claim C9. Every \<open>Config\<close> that \<open>LoadConfigFile\<close> returns without an error has
  \<open>MultipartChunkSizeMb \<ge> 15\<close>: a configured value of at most 15 (read as a signed
  64-bit number, so also zero, which is what an absent key leaves, and negative values)
  is replaced by 15, and a larger value is kept.
\<close>

theorem LoadConfigFile_chunk_size_at_least_15:
  assumes "LoadConfigFile ini_Load MapTo path = (Some config, None)"
  shows "15 \<le> sint (MultipartChunkSizeMb config) \<and>
         (\<exists>cfg c. ini_Load path = Inr cfg \<and> MapTo (chosen_section cfg) zero_Config = Inr c \<and>
            MultipartChunkSizeMb config =
              (if sint (MultipartChunkSizeMb c) \<le> 15 then 15 else MultipartChunkSizeMb c))"
proof -
  from assms obtain cfg c where l: "ini_Load path = Inr cfg"
    and m: "MapTo (chosen_section cfg) zero_Config = Inr c"
    by (rule LoadConfigFile_success)
  from assms LoadConfigFile_mapped [where ini_Load = ini_Load and MapTo = MapTo, OF l m]
  have eq: "MultipartChunkSizeMb config =
      (if sint (MultipartChunkSizeMb c) \<le> 15 then 15 else MultipartChunkSizeMb c)"
    by (auto split: if_splits)
  then have "15 \<le> sint (MultipartChunkSizeMb config)"
    by (simp split: if_splits)
  with l m eq show ?thesis by blast
qed

theorem LoadConfigFile_chunk_size_at_least_15_witness:
  "LoadConfigFile (example_ini_Load session_file) example_MapTo ''.sda-cli-session'' =
     (Some session_Config, None) \<and>
   decimal (key_value (hd session_file) ''multipart_chunk_size_mb'') = 5 \<and>
   MultipartChunkSizeMb session_Config = 15 \<and>
   15 \<le> sint (MultipartChunkSizeMb session_Config)"
  using LoadConfigFile_chunk_size_at_least_15
    [where ini_Load = "example_ini_Load session_file" and MapTo = example_MapTo,
     OF session_file_loaded, THEN conjunct1]
    session_file_loaded
  by (simp add: session_Config_def zero_Config_def session_file_def key_value_def decimal_def)

section \<open>Properties of CustomReader.ReadAt\<close>


lemma ReadAt_Reads_cases:
  "Reads (snd (ReadAt r (n, e) off)) =
     (if e = None \<and> off \<in> SignMap r then Reads r + word_of_nat n else Reads r)"
  by (simp add: ReadAt_def Let_def)

lemma ReadAt_SignMap_cases:
  "SignMap (snd (ReadAt r (n, e) off)) =
     (if e = None then insert off (SignMap r) else SignMap r)"
  by (auto simp: ReadAt_def Let_def)






text \<open>Adding a byte count to a signed 64-bit counter, as long as the sum fits.\<close>

lemma sint_add_of_nat:
  fixes a :: int64
  assumes "sint a + int n < 2 ^ 63"
  shows "sint (a + word_of_nat n) = sint a + int n"
proof -
  have lo: "- (2 ^ 63) \<le> sint a + int n"
    using sint_ge [of a] by simp
  have self: "signed_take_bit 63 (sint a) = sint a"
    using sint_ge [of a] sint_lt [of a] by (simp add: signed_take_bit_int_eq_self)
  have "sint (a + word_of_nat n) = signed_take_bit 63 (sint a + signed_take_bit 63 (int n))"
    by (simp add: sint_word_ariths signed_of_nat)
  also have "\<dots> = signed_take_bit 63 (sint a + int n)"
    using signed_take_bit_add [of 63 "sint a" "int n"] by (simp only: self)
  also have "\<dots> = sint a + int n"
    using lo assms by (simp add: signed_take_bit_int_eq_self)
  finally show ?thesis .
qed

text \<open>The bytes counted over two lists of calls run one after the other.\<close>

lemma counted_bytes_append:
  "counted_bytes (SignMap r) (cs @ ds) =
     counted_bytes (SignMap r) cs + counted_bytes (SignMap (ReadAt_calls cs r)) ds"
proof (induction cs arbitrary: r)
  case Nil
  then show ?case by simp
next
  case (Cons c cs)
  obtain off n e where c: "c = (off, n, e)" by (cases c)
  show ?case
    using Cons.IH [of "snd (ReadAt r (n, e) off)"]
    by (cases e) (simp_all add: c ReadAt_SignMap_cases)
qed

text \<open>As long as the counter does not wrap, it has grown by exactly the counted bytes.\<close>

lemma ReadAt_calls_exact:
  "sint (Reads r) + int (counted_bytes (SignMap r) cs) < 2 ^ 63 \<Longrightarrow>
     sint (Reads (ReadAt_calls cs r)) = sint (Reads r) + int (counted_bytes (SignMap r) cs)"
proof (induction cs arbitrary: r)
  case Nil
  then show ?case by simp
next
  case (Cons c cs)
  obtain off n e where c: "c = (off, n, e)" by (cases c)
  let ?r = "snd (ReadAt r (n, e) off)"
  show ?case
  proof (cases "e = None \<and> off \<in> SignMap r")
    case True
    with Cons.prems c have fits: "sint (Reads r) + int n < 2 ^ 63" by simp
    from True have step: "sint (Reads ?r) = sint (Reads r) + int n"
      by (simp add: ReadAt_Reads_cases sint_add_of_nat [OF fits])
    from True have sm: "SignMap ?r = insert off (SignMap r)"
      by (simp add: ReadAt_SignMap_cases)
    from Cons.prems c True step sm
    have "sint (Reads ?r) + int (counted_bytes (SignMap ?r) cs) < 2 ^ 63" by simp
    from Cons.IH [OF this] True step sm show ?thesis by (simp add: c)
  next
    case False
    then have step: "Reads ?r = Reads r" by (auto simp: ReadAt_Reads_cases)
    have sm: "SignMap ?r = (if e = None then insert off (SignMap r) else SignMap r)"
      by (rule ReadAt_SignMap_cases)
    from Cons.prems c False step sm
    have "sint (Reads ?r) + int (counted_bytes (SignMap ?r) cs) < 2 ^ 63"
      by (auto split: if_splits)
    from Cons.IH [OF this] False step sm show ?thesis by (auto simp: c)
  qed
qed

text \<open>
  Claim C5, as the code has it. \<open>Reads\<close> is a signed 64-bit counter and the addition
  wraps. Over every sequence of \<open>ReadAt\<close> calls (successful or not, at fresh or at
  repeated offsets) in which the bytes that are counted, added to the starting value of
  \<open>Reads\<close>, do not exceed the largest \<open>int64\<close>, \<open>Reads\<close> after each call is at least
  its value before that call.
\<close>

theorem Reads_non_decreasing_without_wrap:
  assumes "sint (Reads r) + int (counted_bytes (SignMap r) cs) < 2 ^ 63"
  shows "\<forall>k<length cs. sint (Reads (ReadAt_calls (take k cs) r))
                        \<le> sint (Reads (ReadAt_calls (take (Suc k) cs) r))"
proof (intro allI impI)
  fix k assume k: "k < length cs"
  have tk: "take (Suc k) cs = take k cs @ [cs ! k]"
    using k by (simp add: take_Suc_conv_app_nth)
  have "cs = take (Suc k) cs @ drop (Suc k) cs" by simp
  then have "counted_bytes (SignMap r) cs =
      counted_bytes (SignMap r) (take (Suc k) cs)
      + counted_bytes (SignMap (ReadAt_calls (take (Suc k) cs) r)) (drop (Suc k) cs)"
    by (metis counted_bytes_append)
  with assms have b1: "sint (Reads r) + int (counted_bytes (SignMap r) (take (Suc k) cs)) < 2 ^ 63"
    by simp
  have split: "counted_bytes (SignMap r) (take (Suc k) cs) =
      counted_bytes (SignMap r) (take k cs)
      + counted_bytes (SignMap (ReadAt_calls (take k cs) r)) [cs ! k]"
    unfolding tk by (rule counted_bytes_append)
  with b1 have b0: "sint (Reads r) + int (counted_bytes (SignMap r) (take k cs)) < 2 ^ 63"
    by simp
  from ReadAt_calls_exact [OF b1] ReadAt_calls_exact [OF b0] split
  show "sint (Reads (ReadAt_calls (take k cs) r))
          \<le> sint (Reads (ReadAt_calls (take (Suc k) cs) r))"
    by simp
qed

text \<open>
  Three reads of 5 bytes at offset 0 of a new reader: the first is not counted, the
  second takes \<open>Reads\<close> from 0 to 5.
\<close>

theorem Reads_non_decreasing_without_wrap_witness:
  "sint (Reads (new_CustomReader 5))
     + int (counted_bytes (SignMap (new_CustomReader 5))
              [(0, 5, None), (0, 5, None), (0, 5, None)]) < 2 ^ 63 \<and>
   counted_bytes (SignMap (new_CustomReader 5)) [(0, 5, None), (0, 5, None), (0, 5, None)] = 10 \<and>
   sint (Reads (ReadAt_calls (take 1 [(0, 5, None), (0, 5, None), (0, 5, None)])
                  (new_CustomReader 5))) = 0 \<and>
   sint (Reads (ReadAt_calls (take 2 [(0, 5, None), (0, 5, None), (0, 5, None)])
                  (new_CustomReader 5))) = 5 \<and>
   sint (Reads (ReadAt_calls (take 1 [(0, 5, None), (0, 5, None), (0, 5, None)])
                  (new_CustomReader 5)))
     \<le> sint (Reads (ReadAt_calls (take (Suc 1) [(0, 5, None), (0, 5, None), (0, 5, None)])
                     (new_CustomReader 5)))"
proof -
  have fits: "sint (Reads (new_CustomReader 5))
      + int (counted_bytes (SignMap (new_CustomReader 5))
               [(0, 5, None), (0, 5, None), (0, 5, None)]) < 2 ^ 63"
    by (simp add: new_CustomReader_def)
  have len: "1 < length [(0 :: int64, 5 :: nat, None :: error option), (0, 5, None), (0, 5, None)]"
    by simp
  from Reads_non_decreasing_without_wrap [OF fits, THEN spec, THEN mp, OF len] fits
  show ?thesis
    by (simp add: new_CustomReader_def ReadAt_def SetTotal_def SetCurrent_def)
qed

text \<open>
  The claim as first written has no condition on the size of the counter. A reader
  whose \<open>Reads\<close> stands at \<open>2^63 - 3\<close> and that has recorded offset 0 counts a
  successful read of 5 bytes at offset 0: the addition wraps and \<open>Reads\<close> falls to
  \<open>- 2^63 + 2\<close>.
\<close>

theorem Reads_wraps_counterexample:
  "sint (Reads nearly_full_CustomReader) = 9223372036854775805 \<and>
   sint (Reads (ReadAt_calls [(0, 5, None)] nearly_full_CustomReader)) = - 9223372036854775806 \<and>
   sint (Reads (ReadAt_calls [(0, 5, None)] nearly_full_CustomReader))
     < sint (Reads nearly_full_CustomReader)"
  by (simp add: nearly_full_CustomReader_def ReadAt_def SetTotal_def SetCurrent_def)

section \<open>Properties of ListFiles\<close>


text \<open>
  For the access key \<open>user\<close> and the prefix \<open>data\<close>: the request goes to the path
  \<open>/user/\<close>, the path-style path of the bucket \<open>user\<close>, and asks for the keys that
  start with \<open>user/data\<close>.
\<close>

lemma ListFiles_example:
  "ListFiles Inr record_request session_Config ''data'' =
     Return (Some (\<lparr> Region = ''us-west-2'',
                      Credentials = \<lparr> cred_id = ''user'', cred_secret = ''user'',
                                      cred_token = ''tok'' \<rparr>,
                      Endpoint = ''https://inbox.example.org'',
                      DisableSSL = True, S3ForcePathStyle = True \<rparr>,
                    \<lparr> Bucket = ''user/'', Prefix = ''user/data'' \<rparr>), None)
   \<and> request_path \<lparr> Bucket = ''user/'', Prefix = ''user/data'' \<rparr> = ''/user/''
   \<and> path_style_path ''user'' [] = ''/user/''"
  by (simp add: ListFiles_def record_request_def session_Config_def zero_Config_def
      request_path_def path_style_path_def)

section \<open>Properties of main\<close>

lemma ParseArgs_upload:
  "ParseArgs upload_Args =
     Returned (''upload'', [''sda-cli'', ''-config'', ''s3cmd.conf'', ''data.c4gh''])"
  by (simp add: ParseArgs_def upload_Args_def)

text \<open>
  Claim C7, as the code has it. For every upload or download invocation that reaches
  the sub-command, what \<open>main\<close> itself reports has two forms: nothing on standard error
  when the sub-command returned no error, and the line \<open>Error: \<close> followed by the text
  of the error when it returned one. The exit status is 0 in both. A failure is told
  from another failure by the text of its error only.
\<close>

theorem main_transfer_report:
  assumes "ParseArgs os_Args = Returned (command, args)"
    and "command = ''upload'' \<or> command = ''download''"
  shows "main Error Help_text sub os_Args =
           \<lparr> stderr = (case (if command = ''upload'' then Upload sub args else Download sub args) of
                         None \<Rightarrow> []
                       | Some e \<Rightarrow> ''Error: '' @ Error e @ [CHR 0x0A]),
             exit_status = 0 \<rparr>"
  using assms by (auto simp: main_def)

theorem main_transfer_report_witness:
  "ParseArgs upload_Args =
     Returned (''upload'', [''sda-cli'', ''-config'', ''s3cmd.conf'', ''data.c4gh'']) \<and>
   main failure_text no_Help_text (all_returning (Some (Permanent ''bad key''))) upload_Args =
     \<lparr> stderr = ''Error: bad key'' @ [CHR 0x0A], exit_status = 0 \<rparr> \<and>
   main failure_text no_Help_text (all_returning None) upload_Args =
     \<lparr> stderr = [], exit_status = 0 \<rparr>"
  using main_transfer_report [OF ParseArgs_upload, of failure_text no_Help_text
      "all_returning (Some (Permanent ''bad key''))"]
    main_transfer_report [OF ParseArgs_upload, of failure_text no_Help_text
      "all_returning (None :: transfer_failure option)"]
  by (simp add: ParseArgs_upload all_returning_def)

text \<open>
  The claim as first written has three outcomes that the report tells apart. An upload
  that fails in a way that could be retried and one that fails for good, with the same
  error text, leave the same report, and its exit status is that of a successful run.
\<close>

theorem main_same_report_counterexample:
  "main failure_text no_Help_text (all_returning (Some (Resumable ''connection reset'')))
     upload_Args =
   main failure_text no_Help_text (all_returning (Some (Permanent ''connection reset'')))
     upload_Args \<and>
   exit_status (main failure_text no_Help_text
                  (all_returning (Some (Permanent ''connection reset''))) upload_Args) =
   exit_status (main failure_text no_Help_text (all_returning None) upload_Args)"
  by (simp add: main_def ParseArgs_upload all_returning_def)

section \<open>Properties of the ChunkCodec\<close>

lemma windows_Nil: "windows B [] = []"
  by (subst windows.simps) simp

lemma windows_Cons:
  "0 < B \<Longrightarrow> windows B (x # xs) = take B (x # xs) # windows B (drop B (x # xs))"
  by (subst windows.simps) simp

text \<open>The windows, put end to end, are the plaintext: nothing is padded or dropped.\<close>

lemma concat_windows: "0 < B \<Longrightarrow> concat (windows B xs) = xs"
proof (induction B xs rule: windows.induct)
  case (1 B xs)
  show ?case
  proof (cases xs)
    case Nil
    then show ?thesis by (simp add: windows_Nil)
  next
    case (Cons y ys)
    with "1.prems" have "concat (windows B (drop B xs)) = drop B xs"
      by (intro "1.IH") auto
    with Cons "1.prems" show ?thesis
      by (simp add: windows_Cons)
  qed
qed

text \<open>Every window is a full block except possibly the last, which is not empty.\<close>

lemma windows_lengths:
  "0 < B \<Longrightarrow> w \<in> set (windows B xs) \<Longrightarrow> 0 < length w \<and> length w \<le> B"
proof (induction B xs arbitrary: w rule: windows.induct)
  case (1 B xs)
  show ?case
  proof (cases xs)
    case Nil
    with "1.prems" show ?thesis by (simp add: windows_Nil)
  next
    case (Cons y ys)
    with "1.prems" have "w = take B xs \<or> w \<in> set (windows B (drop B xs))"
      by (simp add: windows_Cons)
    then show ?thesis
    proof
      assume "w = take B xs"
      with Cons "1.prems" show ?thesis by simp
    next
      assume "w \<in> set (windows B (drop B xs))"
      with Cons "1.prems" show ?thesis by (intro "1.IH") auto
    qed
  qed
qed

lemma encode_from_verifies: "verify_from P key i (encode_from P key i ws)"
  by (induction ws arbitrary: i) (simp_all add: block_valid_def encode_block_def)

lemma encode_from_decrypts:
  "sound_primitives P \<Longrightarrow> decrypt_from P key i (encode_from P key i ws) = concat ws"
  by (induction ws arbitrary: i)
     (simp_all add: block_plaintext_def encode_block_def sound_primitives_def)

lemma unseal_header_recipient:
  "sound_primitives P \<Longrightarrow> public_key P priv \<in> set recipients \<Longrightarrow>
     unseal_header P priv (map (\<lambda>pub. seal_key P pub key) recipients) = Some key"
  by (induction recipients) (auto simp: sound_primitives_def)

lemma toy_sound: "sound_primitives toy_primitives"
  by (auto simp: sound_primitives_def toy_primitives_def o_def intro: map_idI)

text \<open>
  Claim C2. For sound primitives, a positive block size and a caller who is among the
  recipients, decoding the encoding of any plaintext \<open>x\<close> gives \<open>x\<close> back, whatever
  its length: empty, shorter than a block, a whole number of blocks, or ending in a
  short block.
\<close>

theorem decode_encode:
  assumes "sound_primitives P" and "0 < B" and "public_key P priv \<in> set recipients"
  shows "decode P priv (encode P B key recipients x) = Inr x"
  using assms
  by (simp add: decode_def encode_def unseal_header_recipient encode_from_verifies
      encode_from_decrypts concat_windows)

text \<open>
  With blocks of 4 bytes: 0 bytes, 1 byte, one block, one block and a byte, many
  blocks.
\<close>

theorem decode_encode_witness:
  "sound_primitives toy_primitives \<and> (0 :: nat) < 4 \<and>
   public_key toy_primitives [4, 3] \<in> set [[1, 2], [3, 4]] \<and>
   decode toy_primitives [4, 3] (encode toy_primitives 4 [7] [[1, 2], [3, 4]] []) = Inr [] \<and>
   decode toy_primitives [4, 3] (encode toy_primitives 4 [7] [[1, 2], [3, 4]] [9]) = Inr [9] \<and>
   decode toy_primitives [4, 3] (encode toy_primitives 4 [7] [[1, 2], [3, 4]] [1, 2, 3, 4]) =
     Inr [1, 2, 3, 4] \<and>
   decode toy_primitives [4, 3] (encode toy_primitives 4 [7] [[1, 2], [3, 4]] [1, 2, 3, 4, 5]) =
     Inr [1, 2, 3, 4, 5] \<and>
   decode toy_primitives [4, 3]
     (encode toy_primitives 4 [7] [[1, 2], [3, 4]] [1, 2, 3, 4, 5, 6, 7, 8, 9, 10, 11]) =
     Inr [1, 2, 3, 4, 5, 6, 7, 8, 9, 10, 11]"
proof -
  have pos: "(0 :: nat) < 4" by simp
  have rcp: "public_key toy_primitives [4, 3] \<in> set [[1, 2], [3, 4]]"
    by (simp add: toy_primitives_def)
  note rt = decode_encode [OF toy_sound pos rcp, of "[7]"]
  show ?thesis
    using toy_sound pos rcp rt [of "[]"] rt [of "[9]"] rt [of "[1, 2, 3, 4]"]
      rt [of "[1, 2, 3, 4, 5]"] rt [of "[1, 2, 3, 4, 5, 6, 7, 8, 9, 10, 11]"]
    by (intro conjI)
qed

text \<open>A stream in which the tag of one block was changed no longer verifies.\<close>

lemma tampered_block_fails:
  "i < length bs \<Longrightarrow> verify_from P key j bs \<Longrightarrow> t \<noteq> tag (bs ! i) \<Longrightarrow>
     \<not> verify_from P key j (bs[i := (bs ! i)\<lparr>tag := t\<rparr>])"
proof (induction bs arbitrary: i j)
  case Nil
  then show ?case by simp
next
  case (Cons b bs)
  show ?case
  proof (cases i)
    case 0
    with Cons.prems show ?thesis by (auto simp: block_valid_def)
  next
    case (Suc i')
    with Cons.prems Cons.IH [of i' "Suc j"] show ?thesis by simp
  qed
qed

text \<open>The encoded stream of five bytes in blocks of four: a full block and a short one.\<close>

lemma toy_stream:
  "encode toy_primitives 4 [7] [[3, 4]] [1, 2, 3, 4, 5] =
     \<lparr> header = [([3, 4], [7])],
       blocks = [\<lparr> seq_index = 0, plaintext_length = 4, ciphertext = [8, 9, 10, 11],
                    tag = [45] \<rparr>,
                 \<lparr> seq_index = 1, plaintext_length = 1, ciphertext = [13], tag = [21] \<rparr>] \<rparr>"
  by (simp add: encode_def encode_block_def toy_primitives_def key_byte_def
      windows_Cons windows_Nil)

text \<open>
  Claim C3. Take any stream that the caller can decode and replace the authentication
  tag of any one of its blocks by a different value: decoding the result fails with
  \<open>IntegrityError\<close>, and the caller receives no plaintext byte, also not the plaintext
  of the blocks before the one that was changed.
\<close>

theorem tampered_tag_integrity_error:
  assumes "decode P priv c = Inr x" and "i < length (blocks c)" and "t \<noteq> tag (blocks c ! i)"
  shows "decode P priv (tamper_tag c i t) = Inl IntegrityError \<and>
         emitted (decode P priv (tamper_tag c i t)) = []"
proof -
  from assms(1) obtain key where key: "unseal_header P priv (header c) = Some key"
    and ok: "verify_from P key 0 (blocks c)"
    by (auto simp: decode_def split: option.splits if_splits)
  from tampered_block_fails [OF assms(2) ok assms(3)] key show ?thesis
    by (simp add: decode_def tamper_tag_def emitted_def)
qed

theorem tampered_tag_integrity_error_witness:
  "decode toy_primitives [4, 3] (encode toy_primitives 4 [7] [[3, 4]] [1, 2, 3, 4, 5]) =
     Inr [1, 2, 3, 4, 5] \<and>
   1 < length (blocks (encode toy_primitives 4 [7] [[3, 4]] [1, 2, 3, 4, 5])) \<and>
   [0] \<noteq> tag (blocks (encode toy_primitives 4 [7] [[3, 4]] [1, 2, 3, 4, 5]) ! 1) \<and>
   decode toy_primitives [4, 3]
     (tamper_tag (encode toy_primitives 4 [7] [[3, 4]] [1, 2, 3, 4, 5]) 1 [0]) =
     Inl IntegrityError \<and>
   emitted (decode toy_primitives [4, 3]
     (tamper_tag (encode toy_primitives 4 [7] [[3, 4]] [1, 2, 3, 4, 5]) 1 [0])) = []"
proof -
  let ?c = "encode toy_primitives 4 [7] [[3, 4]] [1, 2, 3, 4, 5]"
  have dec: "decode toy_primitives [4, 3] ?c = Inr [1, 2, 3, 4, 5]"
    by (simp add: toy_stream)
       (simp add: decode_def toy_primitives_def block_valid_def block_plaintext_def key_byte_def)
  have len: "1 < length (blocks ?c)" by (simp add: toy_stream)
  have new: "[0] \<noteq> tag (blocks ?c ! 1)" by (simp add: toy_stream)
  note r = tampered_tag_integrity_error [OF dec len new]
  show ?thesis
    using dec len new r [THEN conjunct1] r [THEN conjunct2] by (intro conjI)
qed

section \<open>Properties of the PartPlanner\<close>

lemma round_up_dvd: "B dvd round_up B n"
  by (simp add: round_up_def)

lemma ceil_div_pos: "0 < b \<Longrightarrow> 0 < a \<Longrightarrow> 0 < ceil_div a b"
  by (simp add: ceil_div_def div_greater_zero_iff)

lemma ceil_div_covers: "0 < b \<Longrightarrow> a \<le> ceil_div a b * b"
proof -
  assume b: "0 < b"
  have "a + b - 1 < ((a + b - 1) div b) * b + b"
    using b by (metis add.commute dividend_less_div_times)
  then show ?thesis using b by (simp add: ceil_div_def)
qed

lemma ceil_div_le:
  assumes "0 < p" and "t \<le> p * c"
  shows "ceil_div t p \<le> c"
proof -
  from assms have "t + p - 1 < p * c + p" by simp
  then have "(t + p - 1) div p < Suc c"
    using assms(1) by (simp add: div_less_iff_less_mult mult.commute)
  then show ?thesis by (simp add: ceil_div_def)
qed

lemma round_up_ge: "0 < B \<Longrightarrow> n \<le> round_up B n"
  by (simp add: round_up_def ceil_div_covers)

lemma length_part_ranges [simp]: "length (part_ranges p t) = ceil_div t p"
  by (simp add: part_ranges_def)

lemma part_ranges_offset:
  "i < length (part_ranges p t) \<Longrightarrow> fst (part_ranges p t ! i) = i * p"
  by (simp add: part_ranges_def)

text \<open>Every part but the last has the full part size.\<close>

lemma part_ranges_full:
  assumes "Suc i < length (part_ranges p t)"
  shows "snd (part_ranges p t ! i) = p"
proof -
  from assms have lt: "Suc i < (t + p - 1) div p" by (simp add: ceil_div_def)
  then have p: "0 < p" by (cases p) simp_all
  from lt have "Suc (Suc i) \<le> (t + p - 1) div p" by simp
  then have "Suc (Suc i) * p \<le> t + p - 1"
    using p by (simp add: less_eq_div_iff_mult_less_eq)
  then have "p \<le> t - i * p" using p by simp
  with assms show ?thesis by (simp add: part_ranges_def)
qed

text \<open>Each part starts where the one before it ends.\<close>

lemma part_ranges_contiguous:
  assumes "Suc i < length (part_ranges p t)"
  shows "fst (part_ranges p t ! Suc i) = fst (part_ranges p t ! i) + snd (part_ranges p t ! i)"
  using assms part_ranges_full [OF assms] by (simp add: part_ranges_offset)

lemma sum_full_parts:
  "n \<le> ceil_div t p - 1 \<Longrightarrow> sum_list (map (\<lambda>k. min p (t - k * p)) [0 ..< n]) = n * p"
proof (induction n)
  case 0
  then show ?case by simp
next
  case (Suc n)
  then have "Suc n < length (part_ranges p t)" by simp
  from part_ranges_full [OF this] Suc.prems have "min p (t - n * p) = p"
    by (simp add: part_ranges_def)
  with Suc show ?case by simp
qed

text \<open>The parts cover the stream: their lengths add up to its size.\<close>

lemma part_ranges_cover:
  assumes "0 < p"
  shows "sum_list (map snd (part_ranges p t)) = t"
proof (cases "t = 0")
  case True
  then show ?thesis using assms by (simp add: part_ranges_def ceil_div_def)
next
  case False
  define m where "m = ceil_div t p - 1"
  have n: "ceil_div t p = Suc m" using ceil_div_pos [OF assms, of t] False by (simp add: m_def)
  have full: "sum_list (map (\<lambda>k. min p (t - k * p)) [0 ..< m]) = m * p"
    by (rule sum_full_parts) (simp add: m_def)
  have "m < (t + p - 1) div p" using n by (simp add: ceil_div_def)
  then have "Suc m * p \<le> t + p - 1"
    using assms by (simp add: less_eq_div_iff_mult_less_eq Suc_le_eq [symmetric] del: mult_Suc)
  then have lo: "m * p < t" using assms by simp
  have "t \<le> Suc m * p" using ceil_div_covers [OF assms, of t] n by simp
  then have "min p (t - m * p) = t - m * p" by simp
  with full lo show ?thesis
    by (simp add: part_ranges_def n comp_def)
qed

text \<open>A plan never has more parts than the service allows.\<close>

lemma plan_count:
  assumes "0 < B" and "plan B maxPartSize totalCipherBytes minPartSize maxPartCount = Inr parts"
  shows "length parts \<le> maxPartCount"
proof (cases "totalCipherBytes = 0")
  case True
  with assms(2) show ?thesis by (simp add: plan_def)
next
  case False
  define need where "need = ceil_div totalCipherBytes maxPartCount"
  define partSize where "partSize = round_up B (max minPartSize need)"
  from assms(2) False have c: "0 < maxPartCount"
    and parts: "parts = part_ranges partSize totalCipherBytes"
    by (simp_all add: plan_def partSize_def need_def Let_def split: if_splits)
  have "0 < need" using False c by (simp add: need_def ceil_div_pos)
  moreover have ge: "need \<le> partSize"
    using round_up_ge [OF assms(1), of "max minPartSize need"] by (simp add: partSize_def)
  ultimately have p: "0 < partSize" by simp
  have "totalCipherBytes \<le> need * maxPartCount"
    unfolding need_def by (rule ceil_div_covers [OF c])
  also have "\<dots> \<le> partSize * maxPartCount" using ge by simp
  finally show ?thesis unfolding parts by (simp add: ceil_div_le [OF p])
qed

text \<open>
  The scenario of the specification: 25 MB in parts of at least 8 MB, blocks of 64 KB,
  at most 10000 parts of at most 5 GB: three parts of 8 MB and a last one of 1 MB.
\<close>

lemma upt_4: "[0 ..< 4] = [0, 1, 2, 3]"
  by (simp add: upt_rec)

lemma plan_scenario:
  "plan 65536 5368709120 26214400 8388608 10000 =
     Inr [(0, 8388608), (8388608, 8388608), (16777216, 8388608), (25165824, 1048576)]"
  by (simp add: plan_def round_up_def ceil_div_def part_ranges_def Let_def upt_4)

text \<open>
  Claim C4. \<open>plan\<close> is a function of its arguments, so two calls with the same
  \<open>(totalCipherBytes, minPartSize, maxPartCount)\<close> return the same parts in the same
  order. In every plan each part starts at a multiple of the block size, that is on a
  block boundary, and the length of every part except possibly the last is a multiple
  of the block size.
\<close>

theorem plan_deterministic_and_aligned:
  assumes "0 < B" and "plan B maxPartSize totalCipherBytes minPartSize maxPartCount = Inr parts"
  shows "(\<forall>i<length parts. B dvd fst (parts ! i)) \<and>
         (\<forall>i. Suc i < length parts \<longrightarrow> B dvd snd (parts ! i)) \<and>
         (\<forall>parts'. plan B maxPartSize totalCipherBytes minPartSize maxPartCount = Inr parts'
            \<longrightarrow> parts' = parts)"
proof (cases "totalCipherBytes = 0")
  case True
  with assms(2) show ?thesis by (simp add: plan_def)
next
  case False
  define partSize where
    "partSize = round_up B (max minPartSize (ceil_div totalCipherBytes maxPartCount))"
  from assms(2) False have parts: "parts = part_ranges partSize totalCipherBytes"
    by (simp add: plan_def partSize_def Let_def split: if_splits)
  have dvd: "B dvd partSize" by (simp add: partSize_def round_up_dvd)
  have "B dvd fst (parts ! i)" if "i < length parts" for i
    using that dvd unfolding parts by (simp only: part_ranges_offset) simp
  moreover have "B dvd snd (parts ! i)" if "Suc i < length parts" for i
    using that dvd unfolding parts by (simp only: part_ranges_full)
  ultimately show ?thesis using assms(2) by simp
qed

theorem plan_deterministic_and_aligned_witness:
  "(0 :: nat) < 65536 \<and>
   plan 65536 5368709120 26214400 8388608 10000 =
     Inr [(0, 8388608), (8388608, 8388608), (16777216, 8388608), (25165824, 1048576)] \<and>
   (65536 :: nat) dvd fst ([(0, 8388608), (8388608, 8388608), (16777216, 8388608),
                            (25165824, 1048576)] ! 3) \<and>
   (65536 :: nat) dvd snd ([(0, 8388608), (8388608, 8388608), (16777216, 8388608),
                            (25165824 :: nat, 1048576)] ! 2)"
proof -
  have pos: "(0 :: nat) < 65536" by simp
  note a = plan_deterministic_and_aligned [OF pos plan_scenario]
  have "(65536 :: nat) dvd fst ([(0, 8388608), (8388608, 8388608), (16777216, 8388608),
      (25165824, 1048576)] ! 3)"
    using a [THEN conjunct1, THEN spec, of 3] by simp
  moreover have "(65536 :: nat) dvd snd ([(0, 8388608), (8388608, 8388608),
      (16777216, 8388608), (25165824 :: nat, 1048576)] ! 2)"
    using a [THEN conjunct2, THEN conjunct1, THEN spec, of 2] by simp
  ultimately show ?thesis using pos plan_scenario by (intro conjI)
qed

end
